theory Spec2Isabelle
  imports Complex_Main "HOL-Library.Sublist" "HOL-Library.Multiset" "HOL-Library.Log_Nat"
begin

section \<open>JavaScript numbers\<close>

text \<open>
  A JavaScript \<^verbatim>\<open>number\<close> is an IEEE 754 binary64 value. \<open>Num q\<close> is the finite
  double whose value is the rational \<open>q\<close>; the two zeros are one value \<open>Num 0\<close>
  (they compare equal, and no operation of the program tells them apart).
\<close>

datatype jsnum = Num rat | PosInf | NegInf | NaN

text \<open>\<^verbatim>\<open>Number.isFinite\<close>\<close>

fun isFinite :: "jsnum \<Rightarrow> bool" where
  "isFinite (Num q) = True"
| "isFinite PosInf = False"
| "isFinite NegInf = False"
| "isFinite NaN = False"

text \<open>The relational operators \<^verbatim>\<open><=\<close> and \<^verbatim>\<open>>=\<close>: false as soon as one operand is NaN.\<close>

fun js_le :: "jsnum \<Rightarrow> jsnum \<Rightarrow> bool" where
  "js_le NaN y = False"
| "js_le x NaN = False"
| "js_le NegInf y = True"
| "js_le x PosInf = True"
| "js_le PosInf y = False"
| "js_le x NegInf = False"
| "js_le (Num a) (Num b) = (a \<le> b)"

definition js_ge :: "jsnum \<Rightarrow> jsnum \<Rightarrow> bool" where
  "js_ge x y = js_le y x"

text \<open>Strict equality \<^verbatim>\<open>===\<close> of two numbers: NaN equals nothing.\<close>

fun js_eq :: "jsnum \<Rightarrow> jsnum \<Rightarrow> bool" where
  "js_eq NaN y = False"
| "js_eq x NaN = False"
| "js_eq x y = (x = y)"

subsection \<open>Rounding to binary64\<close>

definition pow2 :: "int \<Rightarrow> rat" where
  "pow2 e = (if 0 \<le> e then 2 ^ nat e else 1 / 2 ^ nat (- e))"

text \<open>\<open>ilog2 a\<close> is the exponent \<open>e\<close> with \<open>2^e \<le> a < 2^(e+1)\<close>, for \<open>a > 0\<close>.\<close>

definition ilog2 :: "rat \<Rightarrow> int" where
  "ilog2 a = (if 1 \<le> a then bitlen \<lfloor>a\<rfloor> - 1 else - bitlen (\<lceil>1 / a\<rceil> - 1))"

definition round_half_even :: "rat \<Rightarrow> int" where
  "round_half_even x =
     (let f = \<lfloor>x\<rfloor>; r = x - of_int f
      in if r < 1 / 2 then f else if 1 / 2 < r then f + 1 else if even f then f else f + 1)"

text \<open>
  Round to nearest, ties to even, with 53 significant bits, gradual underflow below
  \<open>2^-1022\<close> and overflow to an infinity from \<open>2^1024 - 2^970\<close> on.
\<close>

definition round64 :: "rat \<Rightarrow> jsnum" where
  "round64 q =
     (if q = 0 then Num 0
      else let a = \<bar>q\<bar>;
               e = max (ilog2 a) (- 1022);
               u = pow2 (e - 52);
               v = of_int (round_half_even (a / u)) * u
           in if 2 ^ 1024 \<le> v then (if 0 < q then PosInf else NegInf)
              else Num (sgn q * v))"

text \<open>
  The arithmetic operators \<^verbatim>\<open>/\<close> and \<^verbatim>\<open>*\<close>: the exact result, rounded. A zero
  divisor is taken as \<open>+0\<close>, the only zero the program can divide by (an array length).
\<close>

fun js_div :: "jsnum \<Rightarrow> jsnum \<Rightarrow> jsnum" where
  "js_div (Num a) (Num b) =
     (if b = 0 then (if a = 0 then NaN else if 0 < a then PosInf else NegInf)
      else round64 (a / b))"
| "js_div NaN y = NaN"
| "js_div x NaN = NaN"
| "js_div (Num a) PosInf = Num 0"
| "js_div (Num a) NegInf = Num 0"
| "js_div PosInf (Num b) = (if 0 \<le> b then PosInf else NegInf)"
| "js_div NegInf (Num b) = (if 0 \<le> b then NegInf else PosInf)"
| "js_div PosInf PosInf = NaN"
| "js_div PosInf NegInf = NaN"
| "js_div NegInf PosInf = NaN"
| "js_div NegInf NegInf = NaN"

fun js_mul :: "jsnum \<Rightarrow> jsnum \<Rightarrow> jsnum" where
  "js_mul (Num a) (Num b) = round64 (a * b)"
| "js_mul NaN y = NaN"
| "js_mul x NaN = NaN"
| "js_mul (Num a) PosInf = (if a = 0 then NaN else if 0 < a then PosInf else NegInf)"
| "js_mul (Num a) NegInf = (if a = 0 then NaN else if 0 < a then NegInf else PosInf)"
| "js_mul PosInf (Num b) = (if b = 0 then NaN else if 0 < b then PosInf else NegInf)"
| "js_mul NegInf (Num b) = (if b = 0 then NaN else if 0 < b then NegInf else PosInf)"
| "js_mul PosInf PosInf = PosInf"
| "js_mul NegInf NegInf = PosInf"
| "js_mul PosInf NegInf = NegInf"
| "js_mul NegInf PosInf = NegInf"

text \<open>Unary minus.\<close>

fun js_neg :: "jsnum \<Rightarrow> jsnum" where
  "js_neg (Num a) = Num (- a)"
| "js_neg PosInf = NegInf"
| "js_neg NegInf = PosInf"
| "js_neg NaN = NaN"

section \<open>JavaScript strings\<close>

text \<open>
  A string is a sequence of UTF-16 code units; the model covers the code units below 256,
  one \<^typ>\<open>char\<close> each. \<open>isWhiteSpace\<close> holds the white space and line terminator code
  units of that range, which \<^verbatim>\<open>trim\<close> and the conversion to a number strip.
\<close>

definition isWhiteSpace :: "char \<Rightarrow> bool" where
  "isWhiteSpace c = (of_char c \<in> set [9, 10, 11, 12, 13, 32, 160 :: nat])"

text \<open>\<^verbatim>\<open>String.prototype.trim\<close>\<close>

definition trim :: "string \<Rightarrow> string" where
  "trim s = rev (dropWhile isWhiteSpace (rev (dropWhile isWhiteSpace s)))"

definition toLowerChar :: "char \<Rightarrow> char" where
  "toLowerChar c =
     (let n = of_char c :: nat
      in if (65 \<le> n \<and> n \<le> 90) \<or> (192 \<le> n \<and> n \<le> 222 \<and> n \<noteq> 215)
         then char_of (n + 32) else c)"

text \<open>\<^verbatim>\<open>String.prototype.toLowerCase\<close>\<close>

definition toLowerCase :: "string \<Rightarrow> string" where
  "toLowerCase s = map toLowerChar s"

text \<open>\<^verbatim>\<open>s.replace(c, "")\<close> with a one-character pattern: the first occurrence goes.\<close>

definition replace_first :: "char \<Rightarrow> string \<Rightarrow> string" where
  "replace_first c s = remove1 c s"

text \<open>\<^verbatim>\<open>s.includes(q)\<close>\<close>

fun includes_str :: "string \<Rightarrow> string \<Rightarrow> bool" where
  "includes_str [] q = (q = [])"
| "includes_str (c # cs) q = (prefix q (c # cs) \<or> includes_str cs q)"

section \<open>Conversion of a string to a number\<close>

text \<open>
  \<^verbatim>\<open>Number(s)\<close> on a string follows the grammar \<^verbatim>\<open>StringNumericLiteral\<close> of ECMAScript:
  optional white space around either a signed decimal literal (digits, an optional
  fraction, an optional exponent, or \<^verbatim>\<open>Infinity\<close>) or an unsigned binary, octal or
  hexadecimal integer; a blank string is \<open>0\<close>, anything else NaN.
\<close>

definition digitOf :: "nat \<Rightarrow> char \<Rightarrow> nat option" where
  "digitOf b c =
     (let n = of_char c :: nat;
          v = (if 48 \<le> n \<and> n \<le> 57 then Some (n - 48)
               else if 97 \<le> n \<and> n \<le> 102 then Some (n - 87)
               else if 65 \<le> n \<and> n \<le> 70 then Some (n - 55)
               else None)
      in case v of None \<Rightarrow> None | Some d \<Rightarrow> if d < b then Some d else None)"

fun digitsAcc :: "nat \<Rightarrow> nat \<Rightarrow> string \<Rightarrow> nat option" where
  "digitsAcc b acc [] = Some acc"
| "digitsAcc b acc (c # cs) =
     (case digitOf b c of None \<Rightarrow> None | Some d \<Rightarrow> digitsAcc b (acc * b + d) cs)"

text \<open>A non-empty run of digits in base \<open>b\<close>, and a possibly empty one.\<close>

definition Digits :: "nat \<Rightarrow> string \<Rightarrow> nat option" where
  "Digits b s = (if s = [] then None else digitsAcc b 0 s)"

definition DigitsOpt :: "nat \<Rightarrow> string \<Rightarrow> nat option" where
  "DigitsOpt b s = digitsAcc b 0 s"

definition NonDecimalIntegerLiteral :: "string \<Rightarrow> nat option" where
  "NonDecimalIntegerLiteral s =
     (case s of
        z # p # ds \<Rightarrow>
          if z \<noteq> CHR ''0'' then None
          else if p = CHR ''x'' \<or> p = CHR ''X'' then Digits 16 ds
          else if p = CHR ''o'' \<or> p = CHR ''O'' then Digits 8 ds
          else if p = CHR ''b'' \<or> p = CHR ''B'' then Digits 2 ds
          else None
      | _ \<Rightarrow> None)"

definition SignedInteger :: "string \<Rightarrow> int option" where
  "SignedInteger s =
     (case s of
        c # cs \<Rightarrow>
          if c = CHR ''+'' then map_option int (Digits 10 cs)
          else if c = CHR ''-'' then map_option (\<lambda>n. - int n) (Digits 10 cs)
          else map_option int (Digits 10 s)
      | [] \<Rightarrow> None)"

definition isExponentIndicator :: "char \<Rightarrow> bool" where
  "isExponentIndicator c = (c = CHR ''e'' \<or> c = CHR ''E'')"

text \<open>The value of the digits before and after the decimal point.\<close>

definition Mantissa :: "string \<Rightarrow> rat option" where
  "Mantissa m =
     (let ip = takeWhile (\<lambda>c. c \<noteq> CHR ''.'') m;
          dp = dropWhile (\<lambda>c. c \<noteq> CHR ''.'') m
      in if dp = [] then map_option of_nat (Digits 10 ip)
         else let fp = tl dp
              in if ip = [] \<and> fp = [] then None
                 else case (DigitsOpt 10 ip, DigitsOpt 10 fp) of
                        (Some i, Some f) \<Rightarrow> Some (of_nat i + of_nat f / 10 ^ length fp)
                      | _ \<Rightarrow> None)"

definition pow10 :: "int \<Rightarrow> rat" where
  "pow10 k = (if 0 \<le> k then 10 ^ nat k else 1 / 10 ^ nat (- k))"

text \<open>The mathematical value of an unsigned decimal literal other than \<^verbatim>\<open>Infinity\<close>.\<close>

definition StrUnsignedDecimalMV :: "string \<Rightarrow> rat option" where
  "StrUnsignedDecimalMV t =
     (let m = takeWhile (\<lambda>c. \<not> isExponentIndicator c) t;
          ex = dropWhile (\<lambda>c. \<not> isExponentIndicator c) t
      in case Mantissa m of
           None \<Rightarrow> None
         | Some q \<Rightarrow>
             if ex = [] then Some q
             else (case SignedInteger (tl ex) of
                     None \<Rightarrow> None
                   | Some k \<Rightarrow> Some (q * pow10 k)))"

definition StrUnsignedDecimalLiteral :: "string \<Rightarrow> jsnum" where
  "StrUnsignedDecimalLiteral t =
     (if t = ''Infinity'' then PosInf
      else case StrUnsignedDecimalMV t of None \<Rightarrow> NaN | Some q \<Rightarrow> round64 q)"

definition StrDecimalLiteral :: "string \<Rightarrow> jsnum" where
  "StrDecimalLiteral s =
     (case s of
        c # cs \<Rightarrow>
          if c = CHR ''+'' then StrUnsignedDecimalLiteral cs
          else if c = CHR ''-'' then js_neg (StrUnsignedDecimalLiteral cs)
          else StrUnsignedDecimalLiteral s
      | [] \<Rightarrow> NaN)"

text \<open>\<^verbatim>\<open>Number(s)\<close> for a string \<open>s\<close>\<close>

definition StringToNumber :: "string \<Rightarrow> jsnum" where
  "StringToNumber str =
     (let s = trim str
      in if s = [] then Num 0
         else case NonDecimalIntegerLiteral s of
                Some n \<Rightarrow> round64 (of_nat n)
              | None \<Rightarrow> StrDecimalLiteral s)"

section \<open>Value extraction\<close>

text \<open>
  \<^verbatim>\<open>parsePercent(value)\<close>. A cell of a row is a string or is missing
  (\<^verbatim>\<open>undefined\<close>), so the argument is a \<^typ>\<open>string option\<close> and \<^verbatim>\<open>String(value)\<close>
  is the string itself; the result is a number or \<^verbatim>\<open>null\<close>.
\<close>

definition parsePercent :: "string option \<Rightarrow> jsnum option" where
  "parsePercent v =
     (case v of
        None \<Rightarrow> None
      | Some str \<Rightarrow>
          let s = trim str
          in if s = [] \<or> s = ''-'' \<or> toLowerCase s = ''na'' then None
             else let cleaned = replace_first CHR ''%'' s;
                      n = StringToNumber cleaned
                  in if isFinite n then Some n else None)"

section \<open>Classification\<close>

datatype ResultType = LOW | GOOD | HIGH

record range =
  rmin :: jsnum
  rmax :: jsnum

text \<open>\<^verbatim>\<open>classify(value, range)\<close>\<close>

definition classify :: "jsnum \<Rightarrow> range \<Rightarrow> ResultType" where
  "classify v r =
     (if js_le v (rmin r) then LOW
      else if js_ge v (rmax r) then HIGH
      else GOOD)"


section \<open>Rows, sections and classified rows\<close>

text \<open>
  A row of the loaded table maps a column name to its cell; a column the row does not
  have reads as \<^verbatim>\<open>undefined\<close>, here \<open>None\<close>. (Where the name of the column read is
  that of a member the row inherits, the read yields the member; \<^verbatim>\<open>parsePercent\<close> makes
  of it a string that is no number, so the cell is absent, as a missing one is.)
\<close>

type_synonym Row = "string \<rightharpoonup> string"

text \<open>
  An entry of the catalog \<^verbatim>\<open>SECTIONS\<close>. The catalog is imported from a module of its own;
  every function below takes it as an argument. \<open>targetsByPosition\<close> is the table of
  target ranges, keyed by position label.
\<close>

record Section =
  sid :: string
  title :: string
  column :: string
  targetsByPosition :: "string \<rightharpoonup> range"
  goodAction :: string
  lowAction :: string
  highAction :: string

text \<open>
  The table \<^verbatim>\<open>targetsByPosition\<close> is an object, taken to be a plain one as an object
  literal makes it; the map \<open>targetsByPosition\<close> holds its own properties. A property read
  on it finds, for a key it does not own, the members every plain object inherits from
  \<^verbatim>\<open>Object.prototype\<close>. Each of them is a function, and for \<^verbatim>\<open>__proto__\<close> the prototype
  object: a value that counts as true in a condition and has no \<^verbatim>\<open>min\<close> and no \<^verbatim>\<open>max\<close>.
\<close>

definition objectPrototypeMembers :: "string list" where
  "objectPrototypeMembers =
     [''constructor'', ''__proto__'', ''hasOwnProperty'', ''isPrototypeOf'',
      ''propertyIsEnumerable'', ''toLocaleString'', ''toString'', ''valueOf'',
      ''__defineGetter__'', ''__defineSetter__'', ''__lookupGetter__'', ''__lookupSetter__'']"

text \<open>What a read of the table yields: a range of its own, or an inherited member.\<close>

datatype Target = OwnTarget range | InheritedMember string

text \<open>\<^verbatim>\<open>section.targetsByPosition[position]\<close>; \<open>None\<close> is \<^verbatim>\<open>undefined\<close>.\<close>

definition readTarget :: "Section \<Rightarrow> string \<Rightarrow> Target option" where
  "readTarget section key =
     (case targetsByPosition section key of
        Some rg \<Rightarrow> Some (OwnTarget rg)
      | None \<Rightarrow>
          if key \<in> set objectPrototypeMembers then Some (InheritedMember key) else None)"

text \<open>
  What \<^verbatim>\<open>classify\<close> reads off the target: \<^verbatim>\<open>range.min\<close> and \<^verbatim>\<open>range.max\<close>. On an
  inherited member both are \<^verbatim>\<open>undefined\<close>, which a comparison takes as NaN.
\<close>

definition rangeRead :: "Target \<Rightarrow> range" where
  "rangeRead t =
     (case t of OwnTarget rg \<Rightarrow> rg | InheritedMember k \<Rightarrow> \<lparr>rmin = NaN, rmax = NaN\<rparr>)"

record ComputedRow =
  position :: string
  hands :: "string option"
  val :: jsnum
  target :: Target
  result :: ResultType
  recAction :: string

text \<open>\<^verbatim>\<open>(r["Position"] || "").trim()\<close>\<close>

definition positionOf :: "Row \<Rightarrow> string" where
  "positionOf r = trim (case r ''Position'' of None \<Rightarrow> [] | Some p \<Rightarrow> p)"

text \<open>
  The body of the inner loop of \<^verbatim>\<open>computed\<close> for one row: \<open>None\<close> where the source
  leaves the iteration by \<^verbatim>\<open>continue\<close>, the row to push otherwise.
\<close>

definition computeRow :: "Section \<Rightarrow> Row \<Rightarrow> ComputedRow option" where
  "computeRow section r =
     (let position = positionOf r
      in if position = [] then None
         else case readTarget section position of
                None \<Rightarrow> None
              | Some tgt \<Rightarrow>
                  (case parsePercent (r (column section)) of
                     None \<Rightarrow> None
                   | Some v \<Rightarrow>
                       let res = classify v (rangeRead tgt);
                           act = (if res = GOOD then goodAction section
                                  else if res = LOW then lowAction section
                                  else highAction section)
                       in Some \<lparr>position = position, hands = r ''Hands'', val = v,
                                 target = tgt, result = res, recAction = act\<rparr>))"

text \<open>The inner loop: \<open>rows\<close> is the array the source pushes to.\<close>

fun rowsLoop :: "Section \<Rightarrow> ComputedRow list \<Rightarrow> Row list \<Rightarrow> ComputedRow list" where
  "rowsLoop section rows [] = rows"
| "rowsLoop section rows (r # rs) =
     (case computeRow section r of
        None \<Rightarrow> rowsLoop section rows rs
      | Some cr \<Rightarrow> rowsLoop section (rows @ [cr]) rs)"

text \<open>The outer loop: \<open>m\<close> is the object \<^verbatim>\<open>map\<close>, assigned at the key of each section.\<close>

fun sectionsLoop ::
  "(string \<rightharpoonup> ComputedRow list) \<Rightarrow> Row list \<Rightarrow> Section list \<Rightarrow> (string \<rightharpoonup> ComputedRow list)"
where
  "sectionsLoop m rawRows [] = m"
| "sectionsLoop m rawRows (section # ss) =
     sectionsLoop (m(sid section \<mapsto> rowsLoop section [] rawRows)) rawRows ss"

definition computed :: "Section list \<Rightarrow> Row list \<Rightarrow> (string \<rightharpoonup> ComputedRow list)" where
  "computed SECTIONS rawRows = sectionsLoop Map.empty rawRows SECTIONS"

section \<open>Aggregation\<close>

text \<open>
  Counts are array lengths and their sums and differences: integers, exact in binary64
  below \<open>2^53\<close>, and modelled by \<^typ>\<open>int\<close>.
\<close>

record SectionStats =
  stSection :: Section
  rows :: "ComputedRow list"
  good :: int
  bad :: int
  pctGood :: jsnum

text \<open>\<^verbatim>\<open>n ? (g / n) * 100 : 0\<close>\<close>

definition pct :: "int \<Rightarrow> int \<Rightarrow> jsnum" where
  "pct g n =
     (if n \<noteq> 0 then js_mul (js_div (Num (of_int g)) (Num (of_int n))) (Num 100)
      else Num 0)"

text \<open>
  \<^verbatim>\<open>sectionStats\<close> maps a function over the catalog; \<open>statsOf\<close> is that function, and
  \<open>cmp\<close> the object \<^verbatim>\<open>computed\<close> it reads, an absent key giving no rows.
\<close>

definition statsOf :: "(string \<rightharpoonup> ComputedRow list) \<Rightarrow> Section \<Rightarrow> SectionStats" where
  "statsOf cmp s =
     (let rws = (case cmp (sid s) of None \<Rightarrow> [] | Some xs \<Rightarrow> xs);
          g = int (length (filter (\<lambda>r. result r = GOOD) rws));
          b = int (length rws) - g
      in \<lparr>stSection = s, rows = rws, good = g, bad = b, pctGood = pct g (int (length rws))\<rparr>)"

definition sectionStats ::
  "Section list \<Rightarrow> (string \<rightharpoonup> ComputedRow list) \<Rightarrow> SectionStats list" where
  "sectionStats SECTIONS cmp = map (statsOf cmp) SECTIONS"

record Totals =
  totalRows :: int
  totalGood :: int
  totalBad :: int
  totalPctGood :: jsnum
  sectionsWithData :: int
  sectionsWithBad :: int
  totalStats :: int
  goodStats :: int
  badStats :: int
  pctGoodStats :: jsnum

text \<open>\<^verbatim>\<open>xs.reduce((acc, x) => acc + f(x), 0)\<close>\<close>

definition reduce_sum :: "('a \<Rightarrow> int) \<Rightarrow> 'a list \<Rightarrow> int" where
  "reduce_sum f xs = foldl (\<lambda>acc x. acc + f x) 0 xs"

text \<open>\<^verbatim>\<open>totals\<close>; its field \<^verbatim>\<open>pctGood\<close> is \<open>totalPctGood\<close> here.\<close>

definition totals :: "SectionStats list \<Rightarrow> Totals" where
  "totals stats =
     (let tRows = reduce_sum (\<lambda>x. int (length (rows x))) stats;
          tGood = reduce_sum good stats;
          tBad = tRows - tGood;
          pGood = pct tGood tRows;
          swData = int (length (filter (\<lambda>x. 0 < length (rows x)) stats));
          swBad = int (length (filter (\<lambda>x. 0 < bad x) stats));
          withData = filter (\<lambda>x. 0 < length (rows x)) stats;
          gStats = 0;
          tStats = int (length withData);
          bStats = tStats - gStats;
          pGoodStats = pct gStats tStats
      in \<lparr>totalRows = tRows, totalGood = tGood, totalBad = tBad, totalPctGood = pGood,
          sectionsWithData = swData, sectionsWithBad = swBad, totalStats = tStats,
          goodStats = gStats, badStats = bStats, pctGoodStats = pGoodStats\<rparr>)"

section \<open>View selection\<close>

datatype RowFilter = RF_ALL | RF_GOOD | RF_BAD

datatype SectionScope = SC_ALL | WITH_BAD | WITH_DATA

datatype SortMode = MOST_BAD | A_Z

text \<open>
  \<^verbatim>\<open>rowFilterApply(rows, localFilter)\<close>; the state \<^verbatim>\<open>globalRowFilter\<close> it reads is its
  first argument. The filter values \<^verbatim>\<open>"ALL"\<close>, \<^verbatim>\<open>"GOOD"\<close> and \<^verbatim>\<open>"BAD"\<close> are
  \<open>RF_ALL\<close>, \<open>RF_GOOD\<close> and \<open>RF_BAD\<close>.
\<close>

definition rowFilterApply :: "RowFilter \<Rightarrow> ComputedRow list \<Rightarrow> RowFilter \<Rightarrow> ComputedRow list" where
  "rowFilterApply globalRowFilter rws localFilter =
     (let effective = (if globalRowFilter = RF_ALL then localFilter else globalRowFilter)
      in if effective = RF_ALL then rws
         else if effective = RF_GOOD then filter (\<lambda>r. result r = GOOD) rws
         else filter (\<lambda>r. result r \<noteq> GOOD) rws)"

text \<open>
  \<^verbatim>\<open>Array.prototype.sort\<close> with a comparator. ECMAScript fixes its result for a
  consistent comparator: the elements in ascending order, equal ones in their input
  order. A stable insertion sort computes it.
\<close>

fun insert_by :: "('a \<Rightarrow> 'a \<Rightarrow> int) \<Rightarrow> 'a \<Rightarrow> 'a list \<Rightarrow> 'a list" where
  "insert_by c x [] = [x]"
| "insert_by c x (y # ys) = (if c x y \<le> 0 then x # y # ys else y # insert_by c x ys)"

definition js_sort :: "('a \<Rightarrow> 'a \<Rightarrow> int) \<Rightarrow> 'a list \<Rightarrow> 'a list" where
  "js_sort c xs = foldr (insert_by c) xs []"

text \<open>
  The comparators of the two sort modes. \<open>localeCompare\<close> is the collation of the host,
  an argument here: negative, zero or positive.
\<close>

definition cmpMostBad :: "(string \<Rightarrow> string \<Rightarrow> int) \<Rightarrow> SectionStats \<Rightarrow> SectionStats \<Rightarrow> int" where
  "cmpMostBad localeCompare a b =
     (if bad b \<noteq> bad a then bad b - bad a
      else if length (rows b) \<noteq> length (rows a) then int (length (rows b)) - int (length (rows a))
      else localeCompare (title (stSection a)) (title (stSection b)))"

definition cmpTitle :: "(string \<Rightarrow> string \<Rightarrow> int) \<Rightarrow> SectionStats \<Rightarrow> SectionStats \<Rightarrow> int" where
  "cmpTitle localeCompare a b = localeCompare (title (stSection a)) (title (stSection b))"

text \<open>The predicate of the \<^verbatim>\<open>filter\<close> call in \<^verbatim>\<open>visibleSections\<close>.\<close>

definition sectionIncluded :: "SectionScope \<Rightarrow> string \<Rightarrow> SectionStats \<Rightarrow> bool" where
  "sectionIncluded sectionScope q x =
     (if sectionScope = WITH_BAD \<and> bad x = 0 then False
      else if sectionScope = WITH_DATA \<and> length (rows x) = 0 then False
      else if q = [] then True
      else includes_str (toLowerCase (title (stSection x))) q
           \<or> includes_str (toLowerCase (column (stSection x))) q
           \<or> includes_str (toLowerCase (sid (stSection x))) q)"

text \<open>\<^verbatim>\<open>visibleSections\<close>, with the state it reads as arguments.\<close>

definition visibleSections ::
  "(string \<Rightarrow> string \<Rightarrow> int) \<Rightarrow> SectionScope \<Rightarrow> string \<Rightarrow> SortMode \<Rightarrow> SectionStats list
     \<Rightarrow> SectionStats list" where
  "visibleSections localeCompare sectionScope query sortMode stats =
     (let q = toLowerCase (trim query);
          lst = filter (sectionIncluded sectionScope q) stats
      in if sortMode = MOST_BAD then js_sort (cmpMostBad localeCompare) lst
         else js_sort (cmpTitle localeCompare) lst)"

section \<open>Orders on sections\<close>

text \<open>
  What \<^verbatim>\<open>localeCompare\<close> is taken to be: the comparison of a collation, in which any
  two strings are comparable and "at most" (a result \<open>\<le> 0\<close>) is transitive.
\<close>

definition collation :: "(string \<Rightarrow> string \<Rightarrow> int) \<Rightarrow> bool" where
  "collation lc \<longleftrightarrow>
     (\<forall>a b. lc a b \<le> 0 \<or> lc b a \<le> 0)
     \<and> (\<forall>a b c. lc a b \<le> 0 \<and> lc b c \<le> 0 \<longrightarrow> lc a c \<le> 0)"

text \<open>
  The order of the "most out-of-range first" mode in the words of the specification:
  out-of-range count descending, then row count descending, then title ascending.
\<close>

definition spec_mostBadOrder ::
  "(string \<Rightarrow> string \<Rightarrow> int) \<Rightarrow> SectionStats \<Rightarrow> SectionStats \<Rightarrow> bool" where
  "spec_mostBadOrder lc a b \<longleftrightarrow>
     bad b < bad a
     \<or> (bad a = bad b
        \<and> (length (rows b) < length (rows a)
           \<or> (length (rows a) = length (rows b)
              \<and> lc (title (stSection a)) (title (stSection b)) \<le> 0)))"

section \<open>The value extractor of the specification\<close>

text \<open>
  The specification parses the remainder "using standard decimal parsing (supports
  leading sign, decimal point)": an optional sign, then digits with an optional decimal
  point. \<open>spec_decimal\<close> is the value of such a numeral, white space around it allowed.
\<close>

definition spec_decimal :: "string \<Rightarrow> rat option" where
  "spec_decimal str =
     (case trim str of
        c # cs \<Rightarrow>
          if c = CHR ''+'' then Mantissa cs
          else if c = CHR ''-'' then map_option uminus (Mantissa cs)
          else Mantissa (c # cs)
      | [] \<Rightarrow> None)"

text \<open>
  The extractor in the words of the specification: absent for a missing cell, a blank
  one, \<open>"-"\<close> and \<open>"na"\<close> in any case; otherwise the first \<open>%\<close> is removed and the
  remainder parsed as a decimal, absent when that fails or the number is not finite.
\<close>

definition spec_extract :: "string option \<Rightarrow> jsnum option" where
  "spec_extract v =
     (case v of
        None \<Rightarrow> None
      | Some str \<Rightarrow>
          let s = trim str
          in if s = [] \<or> s = ''-'' \<or> toLowerCase s = ''na'' then None
             else case spec_decimal (replace_first CHR ''%'' s) of
                    None \<Rightarrow> None
                  | Some q \<Rightarrow> if isFinite (round64 q) then Some (round64 q) else None)"

section \<open>Example data\<close>

definition range_20_40 :: range where
  "range_20_40 = \<lparr>rmin = Num 20, rmax = Num 40\<rparr>"

definition range_20_20 :: range where
  "range_20_20 = \<lparr>rmin = Num 20, rmax = Num 20\<rparr>"

text \<open>Two sections of a catalog, classified rows and a table of them.\<close>

definition sec_fold :: Section where
  "sec_fold = \<lparr>sid = ''fold_to_3bet'', title = ''Fold to 3-bet'', column = ''Fold to 3-bet'',
     targetsByPosition = [''Button'' \<mapsto> \<lparr>rmin = Num 50, rmax = Num 65\<rparr>],
     goodAction = ''balanced'', lowAction = ''tighten'', highAction = ''widen''\<rparr>"

definition sec_vpip :: Section where
  "sec_vpip = \<lparr>sid = ''vpip'', title = ''VPIP'', column = ''VPIP'',
     targetsByPosition = [''Button'' \<mapsto> \<lparr>rmin = Num 20, rmax = Num 40\<rparr>,
                          ''SB'' \<mapsto> \<lparr>rmin = Num 25, rmax = Num 35\<rparr>],
     goodAction = ''keep'', lowAction = ''loosen'', highAction = ''tighten''\<rparr>"

definition cr_of :: "jsnum \<Rightarrow> ResultType \<Rightarrow> ComputedRow" where
  "cr_of v res = \<lparr>position = ''Button'', hands = None, val = v,
     target = OwnTarget \<lparr>rmin = Num 50, rmax = Num 65\<rparr>, result = res, recAction = ''''\<rparr>"

definition rows_glh :: "ComputedRow list" where
  "rows_glh = [cr_of (Num 60) GOOD, cr_of (Num 45) LOW, cr_of (Num 70) HIGH]"

definition cmp_ex :: "string \<rightharpoonup> ComputedRow list" where
  "cmp_ex = [''fold_to_3bet'' \<mapsto> rows_glh, ''vpip'' \<mapsto> [cr_of (Num 30) GOOD]]"

text \<open>Three rows of a table: one on the button, one in the small blind, one without a position.\<close>

definition row_btn :: Row where
  "row_btn = [''Position'' \<mapsto> ''Button'', ''Fold to 3-bet'' \<mapsto> ''45%'', ''VPIP'' \<mapsto> ''-'']"

definition row_sb :: Row where
  "row_sb = [''Position'' \<mapsto> '' SB '', ''VPIP'' \<mapsto> ''30'', ''Hands'' \<mapsto> ''120'']"

text \<open>A row whose position label is the name of an inherited member.\<close>

definition row_ctor :: Row where
  "row_ctor = [''Position'' \<mapsto> ''constructor'', ''VPIP'' \<mapsto> ''30'']"

definition row_blank :: Row where
  "row_blank = [''Position'' \<mapsto> ''  '', ''Fold to 3-bet'' \<mapsto> ''55%'', ''VPIP'' \<mapsto> ''30'']"

text \<open>A collation for the examples: comparison by code units.\<close>

fun codeUnitCompare :: "string \<Rightarrow> string \<Rightarrow> int" where
  "codeUnitCompare [] [] = 0"
| "codeUnitCompare [] (y # ys) = - 1"
| "codeUnitCompare (x # xs) [] = 1"
| "codeUnitCompare (x # xs) (y # ys) =
     (if (of_char x :: nat) < of_char y then - 1
      else if (of_char y :: nat) < of_char x then 1
      else codeUnitCompare xs ys)"

text \<open>Statistics of three sections: two with one out-of-range row out of two, one with none.\<close>

definition st_of :: "string \<Rightarrow> ComputedRow list \<Rightarrow> SectionStats" where
  "st_of t rws = statsOf [t \<mapsto> rws] (sec_fold\<lparr>sid := t, title := t\<rparr>)"

definition stats3 :: "SectionStats list" where
  "stats3 = [st_of ''Zeta'' [cr_of (Num 60) GOOD],
             st_of ''Beta'' [cr_of (Num 60) GOOD, cr_of (Num 45) LOW],
             st_of ''Alpha'' [cr_of (Num 70) HIGH, cr_of (Num 60) GOOD]]"

section \<open>Facts about rounding\<close>

lemma round64_zero: "round64 0 = Num 0"
  by (simp add: round64_def)

lemma pct_zero_good: "pct 0 n = Num 0"
  by (simp add: pct_def round64_zero)

lemma pct_1_3: "pct 1 3 = Num (2345624805922133 / 2 ^ 46)"
  by code_simp

lemma pct_2_4: "pct 2 4 = Num 50"
  by code_simp

text \<open>Rounding keeps a value between 0 and an integer bound below \<open>2^53\<close> there.\<close>

lemma round_half_even_le_int:
  assumes "x \<le> of_int k"
  shows "round_half_even x \<le> k"
proof (cases "x = of_int k")
  case True
  then show ?thesis by (simp add: round_half_even_def)
next
  case False
  with assms have "x < of_int k" by simp
  then have "\<lfloor>x\<rfloor> < k" by (simp add: floor_less_iff)
  then show ?thesis by (simp add: round_half_even_def Let_def)
qed

lemma round_half_even_nonneg:
  assumes "0 \<le> x"
  shows "0 \<le> round_half_even x"
proof -
  have "0 \<le> \<lfloor>x\<rfloor>" using assms by simp
  then show ?thesis by (simp add: round_half_even_def Let_def)
qed

lemma ilog2_le_52:
  assumes "0 < a" "a \<le> of_int B" "B < 2 ^ 53"
  shows "ilog2 a \<le> 52"
proof (cases "1 \<le> a")
  case True
  define k where "k = \<lfloor>a\<rfloor>"
  have "k \<le> B" using assms(2) by (simp add: k_def floor_le_iff)
  then have "k < 2 ^ nat 53" using assms(3) by simp
  then have "bitlen k \<le> 53" by (simp add: bitlen_le_iff_power)
  then have "bitlen \<lfloor>a\<rfloor> \<le> 53" by (simp only: k_def)
  with True show ?thesis by (simp add: ilog2_def)
next
  case False
  then show ?thesis using bitlen_nonneg [of "\<lceil>1 / a\<rceil> - 1"] by (simp add: ilog2_def)
qed

lemma round64_bounded:
  assumes "0 \<le> q" "q \<le> of_int B" "B < 2 ^ 53"
  shows "\<exists>y. round64 q = Num y \<and> 0 \<le> y \<and> y \<le> of_int B"
proof (cases "q = 0")
  case True
  with assms show ?thesis by (simp add: round64_def)
next
  case False
  with assms have pos: "0 < q" by simp
  define e where "e = max (ilog2 q) (- 1022)"
  define K :: nat where "K = nat (52 - e)"
  define m where "m = round_half_even (q * 2 ^ K)"
  have e52: "e \<le> 52" using ilog2_le_52 [OF pos assms(2,3)] by (simp add: e_def)
  have u: "pow2 (e - 52) = 1 / 2 ^ K"
    using e52 by (cases "e = 52") (simp_all add: pow2_def K_def)
  have "q * 2 ^ K \<le> of_int B * 2 ^ K" using assms(2) by simp
  then have "q * 2 ^ K \<le> of_int (B * 2 ^ K)" by simp
  then have mB: "m \<le> B * 2 ^ K" unfolding m_def by (rule round_half_even_le_int)
  have m0: "0 \<le> m" unfolding m_def using pos by (intro round_half_even_nonneg) simp
  define v :: rat where "v = of_int m / 2 ^ K"
  have "(of_int m :: rat) \<le> of_int (B * 2 ^ K)" using mB by (simp only: of_int_le_iff)
  then have vB: "v \<le> of_int B" by (simp add: v_def divide_le_eq)
  have v0: "0 \<le> v" using m0 by (simp add: v_def)
  have "(of_int B :: rat) < 2 ^ 53" using assms(3) by (metis of_int_less_iff of_int_numeral of_int_power)
  also have "\<dots> \<le> 2 ^ 1024" by (rule power_increasing) simp_all
  finally have "v < 2 ^ 1024" using vB by simp
  moreover have "round64 q = (if 2 ^ 1024 \<le> v then PosInf else Num v)"
    using pos by (simp add: round64_def Let_def u v_def m_def e_def [symmetric])
  ultimately have "round64 q = Num v" by simp
  with v0 vB show ?thesis by blast
qed

lemma pct_bounded:
  assumes "0 \<le> g" "g \<le> n"
  shows "\<exists>y. pct g n = Num y \<and> 0 \<le> y \<and> y \<le> 100"
proof (cases "n = 0")
  case True
  then show ?thesis by (simp add: pct_def)
next
  case False
  with assms have n: "0 < n" by simp
  have "0 \<le> (of_int g :: rat) / of_int n" using assms n by simp
  moreover have "(of_int g :: rat) / of_int n \<le> of_int 1" using assms n by (simp add: divide_le_eq)
  ultimately obtain x where x: "round64 (of_int g / of_int n) = Num x" "0 \<le> x" "x \<le> 1"
    using round64_bounded [of "of_int g / of_int n" 1] by auto
  have "0 \<le> x * 100" "x * 100 \<le> of_int 100" using x by simp_all
  then obtain y where y: "round64 (x * 100) = Num y" "0 \<le> y" "y \<le> 100"
    using round64_bounded [of "x * 100" 100] by auto
  show ?thesis using n x y by (simp add: pct_def)
qed

section \<open>The value extractor\<close>

text \<open>Where the decimal parser of the specification succeeds, the conversion to a number agrees.\<close>

lemma round64_minus: "round64 (- q) = js_neg (round64 q)"
  by (cases "q = 0") (auto simp: round64_def Let_def sgn_if)

lemma digitsAcc_Some_digits:
  "digitsAcc b acc s = Some n \<Longrightarrow> \<forall>c \<in> set s. digitOf b c \<noteq> None"
  by (induction s arbitrary: acc) (auto split: option.splits)

lemma digitOf_not_exponent: "digitOf 10 c \<noteq> None \<Longrightarrow> \<not> isExponentIndicator c"
  by (auto simp: digitOf_def isExponentIndicator_def Let_def)

lemma digitOf_dot: "digitOf b CHR ''.'' = None"
  by (simp add: digitOf_def)

lemma Mantissa_Infinity: "Mantissa ''Infinity'' = None"
  by code_simp

lemma Mantissa_chars:
  assumes "Mantissa m = Some q"
  shows "\<forall>c \<in> set m. c = CHR ''.'' \<or> digitOf 10 c \<noteq> None"
proof -
  define ip where "ip = takeWhile (\<lambda>c. c \<noteq> CHR ''.'') m"
  define dp where "dp = dropWhile (\<lambda>c. c \<noteq> CHR ''.'') m"
  have m: "m = ip @ dp" by (simp add: ip_def dp_def)
  show ?thesis
  proof (cases "dp = []")
    case True
    with assms have "Digits 10 ip \<noteq> None"
      by (auto simp: Mantissa_def Let_def ip_def dp_def)
    then obtain n where "digitsAcc 10 0 ip = Some n"
      by (auto simp: Digits_def split: if_splits)
    then have "\<forall>c \<in> set ip. digitOf 10 c \<noteq> None"
      by (rule digitsAcc_Some_digits)
    with True m show ?thesis by simp
  next
    case False
    then have "hd dp = CHR ''.''"
      unfolding dp_def using hd_dropWhile [of "\<lambda>c. c \<noteq> CHR ''.''" m] by simp
    with False have dp: "dp = CHR ''.'' # tl dp" by (cases dp) simp_all
    from False assms have "DigitsOpt 10 ip \<noteq> None \<and> DigitsOpt 10 (tl dp) \<noteq> None"
      unfolding Mantissa_def Let_def ip_def [symmetric] dp_def [symmetric]
      by (simp split: if_splits option.splits)
    then obtain i f where "digitsAcc 10 0 ip = Some i" "digitsAcc 10 0 (tl dp) = Some f"
      by (auto simp: DigitsOpt_def)
    then have "\<forall>c \<in> set ip. digitOf 10 c \<noteq> None" "\<forall>c \<in> set (tl dp). digitOf 10 c \<noteq> None"
      by (auto dest: digitsAcc_Some_digits)
    moreover have "set m = set ip \<union> insert (CHR ''.'') (set (tl dp))"
      using m dp by (metis list.simps(15) set_append)
    ultimately show ?thesis by auto
  qed
qed

lemma dot_not_exponent: "\<not> isExponentIndicator CHR ''.''"
  by (simp add: isExponentIndicator_def)

lemma Mantissa_MV:
  assumes "Mantissa m = Some q"
  shows "StrUnsignedDecimalMV m = Some q"
proof -
  have nx: "\<not> isExponentIndicator c" if "c \<in> set m" for c
  proof -
    from Mantissa_chars [OF assms] that have "c = CHR ''.'' \<or> digitOf 10 c \<noteq> None"
      by blast
    then show ?thesis
      using dot_not_exponent digitOf_not_exponent by blast
  qed
  have tw: "takeWhile (\<lambda>c. \<not> isExponentIndicator c) m = m"
    using nx by (simp add: takeWhile_eq_all_conv)
  have dw: "dropWhile (\<lambda>c. \<not> isExponentIndicator c) m = []"
    using nx by (simp add: dropWhile_eq_Nil_conv)
  show ?thesis
    unfolding StrUnsignedDecimalMV_def Let_def tw dw by (simp add: assms)
qed

lemma Mantissa_Literal:
  assumes "Mantissa m = Some q"
  shows "StrUnsignedDecimalLiteral m = round64 q"
proof -
  have "m \<noteq> ''Infinity''" using assms Mantissa_Infinity by auto
  then show ?thesis
    using Mantissa_MV [OF assms] by (simp add: StrUnsignedDecimalLiteral_def)
qed

lemma digitOf_radix_letters:
  "digitOf 10 CHR ''x'' = None" "digitOf 10 CHR ''X'' = None"
  "digitOf 10 CHR ''o'' = None" "digitOf 10 CHR ''O'' = None"
  "digitOf 10 CHR ''b'' = None" "digitOf 10 CHR ''B'' = None"
  by (simp_all add: digitOf_def)

lemma Mantissa_not_NonDecimal:
  assumes "Mantissa m = Some q"
  shows "NonDecimalIntegerLiteral m = None"
proof (cases m)
  case Nil
  then show ?thesis by (simp add: NonDecimalIntegerLiteral_def)
next
  case (Cons z rest)
  show ?thesis
  proof (cases rest)
    case Nil
    with Cons show ?thesis by (simp add: NonDecimalIntegerLiteral_def)
  next
    case (Cons p ds)
    with \<open>m = z # rest\<close> have "p \<in> set m" by simp
    then have "p = CHR ''.'' \<or> digitOf 10 p \<noteq> None"
      using Mantissa_chars [OF assms] by blast
    then have "p \<noteq> CHR ''x''" "p \<noteq> CHR ''X''" "p \<noteq> CHR ''o''" "p \<noteq> CHR ''O''"
      "p \<noteq> CHR ''b''" "p \<noteq> CHR ''B''"
      using digitOf_radix_letters by auto
    with Cons \<open>m = z # rest\<close> show ?thesis
      by (simp add: NonDecimalIntegerLiteral_def)
  qed
qed

lemma sign_not_NonDecimal:
  "c = CHR ''+'' \<or> c = CHR ''-'' \<Longrightarrow> NonDecimalIntegerLiteral (c # cs) = None"
  by (auto simp: NonDecimalIntegerLiteral_def split: list.splits)

lemma spec_decimal_Number:
  assumes "spec_decimal r = Some q"
  shows "StringToNumber r = round64 q"
proof (cases "trim r")
  case Nil
  with assms show ?thesis by (simp add: spec_decimal_def)
next
  case (Cons c cs)
  consider "c = CHR ''+''" | "c = CHR ''-''" | "c \<noteq> CHR ''+''" "c \<noteq> CHR ''-''" by blast
  then show ?thesis
  proof cases
    case 1
    with Cons assms have "Mantissa cs = Some q" by (simp add: spec_decimal_def)
    then have "StrUnsignedDecimalLiteral cs = round64 q" by (rule Mantissa_Literal)
    with 1 Cons show ?thesis
      by (simp add: StringToNumber_def sign_not_NonDecimal StrDecimalLiteral_def)
  next
    case 2
    with Cons assms obtain p where p: "Mantissa cs = Some p" "q = - p"
      by (auto simp: spec_decimal_def)
    then have "StrUnsignedDecimalLiteral cs = round64 p" by (simp add: Mantissa_Literal)
    with 2 Cons p show ?thesis
      by (simp add: StringToNumber_def sign_not_NonDecimal StrDecimalLiteral_def round64_minus)
  next
    case 3
    with Cons assms have m: "Mantissa (c # cs) = Some q" by (simp add: spec_decimal_def)
    then have "StrUnsignedDecimalLiteral (c # cs) = round64 q" by (rule Mantissa_Literal)
    with 3 Cons show ?thesis
      by (simp add: StringToNumber_def Mantissa_not_NonDecimal [OF m] StrDecimalLiteral_def)
  qed
qed

lemma spec_extract_Some:
  assumes "spec_extract (Some str) = Some n"
  shows "\<not> (trim str = [] \<or> trim str = ''-'' \<or> toLowerCase (trim str) = ''na'')
       \<and> (\<exists>q. spec_decimal (replace_first CHR ''%'' (trim str)) = Some q
              \<and> isFinite (round64 q) \<and> n = round64 q)"
proof (cases "trim str = [] \<or> trim str = ''-'' \<or> toLowerCase (trim str) = ''na''")
  case True
  with assms show ?thesis by (simp add: spec_extract_def)
next
  case False
  show ?thesis
  proof (cases "spec_decimal (replace_first CHR ''%'' (trim str))")
    case None
    with False assms show ?thesis by (simp add: spec_extract_def)
  next
    case (Some q)
    with False assms show ?thesis by (simp add: spec_extract_def split: if_splits)
  qed
qed

lemma spec_extract_refines:
  assumes "spec_extract v = Some n"
  shows "parsePercent v = Some n"
proof (cases v)
  case None
  with assms show ?thesis by (simp add: spec_extract_def)
next
  case (Some str)
  from spec_extract_Some [of str n] assms Some
  obtain q where ok: "\<not> (trim str = [] \<or> trim str = ''-'' \<or> toLowerCase (trim str) = ''na'')"
    and q: "spec_decimal (replace_first CHR ''%'' (trim str)) = Some q"
      "isFinite (round64 q)" "n = round64 q"
    by blast
  have "StringToNumber (replace_first CHR ''%'' (trim str)) = round64 q"
    using q(1) by (rule spec_decimal_Number)
  with ok q Some show ?thesis
    by (simp add: parsePercent_def)
qed

lemma parsePercent_finite: "parsePercent v = Some n \<Longrightarrow> isFinite n"
  by (auto simp: parsePercent_def Let_def split: option.splits if_splits)

text \<open>Inputs the conversion accepts and the decimal parser of the specification does not.\<close>

lemma parsePercent_hex: "parsePercent (Some ''0x1A'') = Some (Num 26)"
  by code_simp

lemma spec_extract_hex: "spec_extract (Some ''0x1A'') = None"
  by code_simp

lemma parsePercent_lone_percent: "parsePercent (Some ''%'') = Some (Num 0)"
  by code_simp

lemma parsePercent_exponent: "parsePercent (Some ''1e3'') = Some (Num 1000)"
  by code_simp

text \<open>
  C3, as stated: the extractor is absent when the remainder does not parse as a finite
  decimal number. The cell \<open>"0x1A"\<close> is no decimal numeral, and the extractor returns
  26: \<^verbatim>\<open>Number\<close> reads a hexadecimal integer.
\<close>

theorem parsePercent_hex_counterexample:
  "parsePercent (Some ''0x1A'') = Some (Num 26) \<and> spec_extract (Some ''0x1A'') = None"
  by (simp add: parsePercent_hex spec_extract_hex)

text \<open>
  C3, amended: the extractor is absent for a missing cell, a cell empty after trimming,
  \<open>"-"\<close> and \<open>"na"\<close> in any case. Otherwise the first \<open>%\<close> is removed and, the remainder
  not being blank, the result is what \<^verbatim>\<open>Number\<close> makes of the remainder when that is
  finite, and absent when it is not: \<^verbatim>\<open>Number\<close> reads, between optional white space, an
  unsigned binary, octal or hexadecimal integer or a signed decimal literal with an
  optional fraction and an optional exponent. Wherever the extractor of the
  specification yields a number, the code yields the same number; and a number the code
  yields is finite.
\<close>

theorem parsePercent_cases:
  "parsePercent None = None
   \<and> (trim str = [] \<or> trim str = ''-'' \<or> toLowerCase (trim str) = ''na''
        \<longrightarrow> parsePercent (Some str) = None)
   \<and> (\<not> (trim str = [] \<or> trim str = ''-'' \<or> toLowerCase (trim str) = ''na'')
        \<and> trim (replace_first CHR ''%'' (trim str)) \<noteq> []
        \<longrightarrow> parsePercent (Some str) =
             (let t = trim (replace_first CHR ''%'' (trim str));
                  n = (case NonDecimalIntegerLiteral t of
                         Some k \<Rightarrow> round64 (of_nat k)
                       | None \<Rightarrow> StrDecimalLiteral t)
              in if isFinite n then Some n else None))
   \<and> (spec_extract v = Some n \<longrightarrow> parsePercent v = Some n)
   \<and> (parsePercent v = Some n \<longrightarrow> isFinite n)"
proof -
  have a: "parsePercent None = None"
    by (simp add: parsePercent_def)
  have b: "parsePercent (Some str) = None"
    if "trim str = [] \<or> trim str = ''-'' \<or> toLowerCase (trim str) = ''na''"
    using that by (simp add: parsePercent_def)
  have c: "parsePercent (Some str) =
             (let t = trim (replace_first CHR ''%'' (trim str));
                  n = (case NonDecimalIntegerLiteral t of
                         Some k \<Rightarrow> round64 (of_nat k)
                       | None \<Rightarrow> StrDecimalLiteral t)
              in if isFinite n then Some n else None)"
    if "\<not> (trim str = [] \<or> trim str = ''-'' \<or> toLowerCase (trim str) = ''na'')"
      "trim (replace_first CHR ''%'' (trim str)) \<noteq> []"
    using that by (simp add: parsePercent_def StringToNumber_def Let_def)
  show ?thesis
    using a b c spec_extract_refines [of v n] parsePercent_finite [of v n] by blast
qed

text \<open>The examples of the specification.\<close>

lemma extract_examples:
  "trim [] = []"
  "trim ''-'' = ''-''"
  "toLowerCase (trim ''NA'') = ''na''"
  "toLowerCase (trim ''na'') = ''na''"
  "spec_extract (Some ''42.5%'') = Some (Num (85 / 2))"
  "parsePercent (Some ''abc'') = None"
  by code_simp+

theorem parsePercent_cases_witness:
  "parsePercent None = None
   \<and> parsePercent (Some []) = None
   \<and> parsePercent (Some ''-'') = None
   \<and> parsePercent (Some ''NA'') = None
   \<and> parsePercent (Some ''na'') = None
   \<and> parsePercent (Some ''42.5%'') = Some (Num (85 / 2))
   \<and> parsePercent (Some ''abc'') = None
   \<and> parsePercent (Some ''1e3'') = Some (Num 1000)"
  using parsePercent_cases [of "[]" None "Num 0"] parsePercent_cases [of "''-''" None "Num 0"]
    parsePercent_cases [of "''NA''" None "Num 0"] parsePercent_cases [of "''na''" None "Num 0"]
    parsePercent_cases [of "[]" "Some ''42.5%''" "Num (85 / 2)"]
  by (simp add: extract_examples parsePercent_exponent)

section \<open>The classifier\<close>

text \<open>
  C2, as stated: with \<open>min \<le> max\<close>, a value \<open>v \<ge> max\<close> is above-range. It is not so on
  the range \<open>{min: 20, max: 20}\<close>: the value 20 is at \<open>max\<close> and is classified
  below-range, since the test against \<open>min\<close> comes first.
\<close>

theorem classify_at_max_counterexample:
  "js_le (rmin range_20_20) (rmax range_20_20)
   \<and> js_ge (Num 20) (rmax range_20_20)
   \<and> classify (Num 20) range_20_20 \<noteq> HIGH"
  by (simp add: classify_def js_ge_def range_20_20_def)

text \<open>
  C2, amended: for a finite value \<open>v\<close> and a range with \<open>min \<le> max\<close>, the classifier
  returns below-range when \<open>v \<le> min\<close>, above-range when \<open>v \<ge> max\<close> and not \<open>v \<le> min\<close>,
  and in-range otherwise. The boundary value \<open>v = min\<close> is below-range, the boundary
  value \<open>v = max\<close> is above-range when \<open>min \<noteq> max\<close>, and neither is ever in-range.
\<close>

theorem classify_cascade:
  assumes "js_le (rmin r) (rmax r)"
  shows "(js_le (Num x) (rmin r) \<longrightarrow> classify (Num x) r = LOW)
       \<and> (js_ge (Num x) (rmax r) \<and> \<not> js_le (Num x) (rmin r) \<longrightarrow> classify (Num x) r = HIGH)
       \<and> (\<not> js_le (Num x) (rmin r) \<and> \<not> js_ge (Num x) (rmax r) \<longrightarrow> classify (Num x) r = GOOD)
       \<and> (rmin r = Num x \<longrightarrow> classify (Num x) r = LOW)
       \<and> (rmax r = Num x \<and> rmin r \<noteq> rmax r \<longrightarrow> classify (Num x) r = HIGH)
       \<and> (rmin r = Num x \<or> rmax r = Num x \<longrightarrow> classify (Num x) r \<noteq> GOOD)"
proof -
  have lo: "classify (Num x) r = LOW" if "js_le (Num x) (rmin r)"
    using that by (simp add: classify_def)
  have hi: "classify (Num x) r = HIGH" if "js_ge (Num x) (rmax r)" "\<not> js_le (Num x) (rmin r)"
    using that by (simp add: classify_def)
  have mid: "classify (Num x) r = GOOD" if "\<not> js_le (Num x) (rmin r)" "\<not> js_ge (Num x) (rmax r)"
    using that by (simp add: classify_def)
  have at_min: "js_le (Num x) (rmin r)" if "rmin r = Num x"
    using that by simp
  have at_max: "js_ge (Num x) (rmax r)" if "rmax r = Num x"
    using that by (simp add: js_ge_def)
  have above_min: "\<not> js_le (Num x) (rmin r)" if "rmax r = Num x" "rmin r \<noteq> rmax r"
    using assms that by (cases "rmin r") auto
  have never_good: "classify (Num x) r \<noteq> GOOD" if "rmin r = Num x \<or> rmax r = Num x"
    using that by (auto simp: classify_def js_ge_def)
  show ?thesis
    using lo hi mid at_min at_max above_min never_good by blast
qed

text \<open>
  The range \<open>{min: 20, max: 40}\<close> at the values 20, 40, 20.01 and 39.99 (the last two as
  the doubles the literals denote).
\<close>

theorem classify_cascade_witness:
  "js_le (rmin range_20_40) (rmax range_20_40)
   \<and> classify (Num 20) range_20_40 = LOW
   \<and> classify (Num 40) range_20_40 = HIGH
   \<and> classify (Num (5632314283980227 / 2 ^ 48)) range_20_40 = GOOD
   \<and> classify (Num (5628092159329567 / 2 ^ 47)) range_20_40 = GOOD"
proof -
  have h: "js_le (rmin range_20_40) (rmax range_20_40)"
    by (simp add: range_20_40_def)
  show ?thesis
    using h classify_cascade [OF h, of 20] classify_cascade [OF h, of 40]
      classify_cascade [OF h, of "5632314283980227 / 2 ^ 48"]
      classify_cascade [OF h, of "5628092159329567 / 2 ^ 47"]
    by (simp add: range_20_40_def js_ge_def)
qed

text \<open>
  C10: on a range with \<open>min = max\<close> no finite value is classified in-range: every value
  is at most \<open>min\<close> or at least \<open>max\<close>, and the shared boundary value is below-range.
\<close>

theorem classify_degenerate_range:
  assumes "js_eq (rmin r) (rmax r)"
  shows "classify (Num x) r \<noteq> GOOD
       \<and> (js_le (Num x) (rmin r) \<or> js_ge (Num x) (rmax r))
       \<and> (rmin r = Num x \<longrightarrow> classify (Num x) r = LOW)"
  using assms by (cases "rmin r"; cases "rmax r") (auto simp: classify_def js_ge_def)

theorem classify_degenerate_range_witness:
  "js_eq (rmin range_20_20) (rmax range_20_20)
   \<and> classify (Num 19) range_20_20 = LOW
   \<and> classify (Num 20) range_20_20 = LOW
   \<and> classify (Num 21) range_20_20 = HIGH"
proof -
  have h: "js_eq (rmin range_20_20) (rmax range_20_20)"
    by (simp add: range_20_20_def)
  show ?thesis
    using h classify_degenerate_range [OF h, of 19] classify_degenerate_range [OF h, of 20]
      classify_degenerate_range [OF h, of 21]
    by (simp add: range_20_20_def classify_def js_ge_def)
qed

section \<open>Row filters\<close>

text \<open>
  C5: the effective filter is the global filter unless that is "no filter", and the
  section's own filter then; "only in-range" keeps exactly the rows with outcome
  in-range, "only out-of-range" exactly the others, "no filter" all rows; the rows kept
  are a subsequence of the rows given, so their relative order is the original one.
\<close>

theorem rowFilterApply_effective:
  "(g \<noteq> RF_ALL \<longrightarrow> rowFilterApply g rws l = rowFilterApply g rws RF_ALL)
   \<and> (g = RF_ALL \<longrightarrow> rowFilterApply g rws l = rowFilterApply l rws RF_ALL)
   \<and> rowFilterApply RF_ALL rws RF_ALL = rws
   \<and> rowFilterApply RF_GOOD rws l = filter (\<lambda>r. result r = GOOD) rws
   \<and> rowFilterApply RF_BAD rws l = filter (\<lambda>r. result r \<noteq> GOOD) rws
   \<and> subseq (rowFilterApply g rws l) rws"
  by (cases g; cases l) (simp_all add: rowFilterApply_def)

theorem rowFilterApply_effective_witness:
  "rowFilterApply RF_BAD rows_glh RF_GOOD = [cr_of (Num 45) LOW, cr_of (Num 70) HIGH]
   \<and> rowFilterApply RF_ALL rows_glh RF_GOOD = [cr_of (Num 60) GOOD]
   \<and> rowFilterApply RF_ALL rows_glh RF_ALL = rows_glh
   \<and> subseq (rowFilterApply RF_BAD rows_glh RF_GOOD) rows_glh"
proof -
  have ev: "rowFilterApply RF_BAD rows_glh RF_GOOD = [cr_of (Num 45) LOW, cr_of (Num 70) HIGH]"
    "rowFilterApply RF_ALL rows_glh RF_GOOD = [cr_of (Num 60) GOOD]"
    "rowFilterApply RF_ALL rows_glh RF_ALL = rows_glh"
    by (simp_all add: rowFilterApply_def rows_glh_def cr_of_def)
  from rowFilterApply_effective [of RF_BAD rows_glh RF_GOOD]
  have "subseq (rowFilterApply RF_BAD rows_glh RF_GOOD) rows_glh"
    by blast
  with ev show ?thesis
    by blast
qed

section \<open>Per-section statistics\<close>

lemma length_filter_compl:
  "int (length xs) - int (length (filter P xs)) = int (length (filter (\<lambda>x. \<not> P x) xs))"
  using sum_length_filter_compl [of P xs] by simp

lemma statsOf_fields:
  "rows (statsOf cmp s) = (case cmp (sid s) of None \<Rightarrow> [] | Some xs \<Rightarrow> xs)"
  "good (statsOf cmp s) = int (length (filter (\<lambda>r. result r = GOOD) (rows (statsOf cmp s))))"
  "bad (statsOf cmp s) = int (length (filter (\<lambda>r. result r \<noteq> GOOD) (rows (statsOf cmp s))))"
  "pctGood (statsOf cmp s) = pct (good (statsOf cmp s)) (int (length (rows (statsOf cmp s))))"
  "stSection (statsOf cmp s) = s"
  by (simp_all add: statsOf_def Let_def length_filter_compl)

lemma statsOf_pct_bounded: "\<exists>y. pctGood (statsOf cmp s) = Num y \<and> 0 \<le> y \<and> y \<le> 100"
  unfolding statsOf_fields(4) statsOf_fields(2)
  by (rule pct_bounded) simp_all

lemma bad_pos_iff:
  "0 < bad (statsOf cmp s) \<longleftrightarrow> (\<exists>r \<in> set (rows (statsOf cmp s)). result r \<noteq> GOOD)"
  by (simp add: statsOf_fields(3) filter_empty_conv)

lemma stats_glh:
  "statsOf [''fold_to_3bet'' \<mapsto> rows_glh] sec_fold
     = \<lparr>stSection = sec_fold, rows = rows_glh, good = 1, bad = 2,
        pctGood = Num (2345624805922133 / 2 ^ 46)\<rparr>"
  by (simp add: statsOf_def sec_fold_def rows_glh_def cr_of_def pct_1_3)

text \<open>
  C1, as stated: the fraction in-range of a section is its in-range count divided by
  its row count, \<open>1/3\<close> for rows classified in-range, below-range, above-range. The
  field \<open>pctGood\<close> of that section is the double \<open>33.33333333333333\<close>: the quotient
  is multiplied by 100.
\<close>

theorem pctGood_fraction_counterexample:
  "map result (rows (statsOf [''fold_to_3bet'' \<mapsto> rows_glh] sec_fold)) = [GOOD, LOW, HIGH]
   \<and> pctGood (statsOf [''fold_to_3bet'' \<mapsto> rows_glh] sec_fold) = Num (2345624805922133 / 2 ^ 46)
   \<and> pctGood (statsOf [''fold_to_3bet'' \<mapsto> rows_glh] sec_fold) \<noteq> Num (1 / 3)"
  unfolding stats_glh by (simp add: rows_glh_def cr_of_def)

text \<open>
  C1, amended: for every section, the in-range count is the number of its rows with
  outcome in-range, the out-of-range count is the row count minus the in-range count
  (the number of rows with another outcome), and \<open>pctGood\<close> is the percentage in-range:
  the in-range count divided by the row count, times 100, in double arithmetic; it is 0
  for a section with no rows and always a finite number from 0 to 100.
\<close>

theorem sectionStats_counts:
  assumes "st \<in> set (sectionStats SECTIONS cmp)"
  shows "rows st = (case cmp (sid (stSection st)) of None \<Rightarrow> [] | Some xs \<Rightarrow> xs)
   \<and> good st = int (length (filter (\<lambda>r. result r = GOOD) (rows st)))
   \<and> bad st = int (length (rows st)) - good st
   \<and> bad st = int (length (filter (\<lambda>r. result r \<noteq> GOOD) (rows st)))
   \<and> pctGood st =
       (if rows st = [] then Num 0
        else js_mul (js_div (Num (of_int (good st))) (Num (of_nat (length (rows st))))) (Num 100))
   \<and> (\<exists>y. pctGood st = Num y \<and> 0 \<le> y \<and> y \<le> 100)"
proof -
  from assms obtain s where st: "st = statsOf cmp s"
    by (auto simp: sectionStats_def)
  have b: "bad st = int (length (rows st)) - good st"
    by (simp add: st statsOf_def Let_def)
  have p: "pctGood st =
       (if rows st = [] then Num 0
        else js_mul (js_div (Num (of_int (good st))) (Num (of_nat (length (rows st))))) (Num 100))"
    by (simp add: st statsOf_fields(4) pct_def)
  show ?thesis
    using statsOf_fields(1,2,3) [of cmp s] statsOf_fields(5) [of cmp s] b p
      statsOf_pct_bounded [of cmp s]
    unfolding st [symmetric] by simp
qed

text \<open>
  A section with rows classified in-range, below-range, above-range: counts 1 and 2,
  percentage \<open>33.33333333333333\<close>; and a section without rows: percentage 0.
\<close>

theorem sectionStats_counts_witness:
  "statsOf [''fold_to_3bet'' \<mapsto> rows_glh] sec_fold
       \<in> set (sectionStats [sec_fold] [''fold_to_3bet'' \<mapsto> rows_glh])
   \<and> map result (rows (statsOf [''fold_to_3bet'' \<mapsto> rows_glh] sec_fold)) = [GOOD, LOW, HIGH]
   \<and> good (statsOf [''fold_to_3bet'' \<mapsto> rows_glh] sec_fold) = 1
   \<and> bad (statsOf [''fold_to_3bet'' \<mapsto> rows_glh] sec_fold) = 2
   \<and> pctGood (statsOf [''fold_to_3bet'' \<mapsto> rows_glh] sec_fold) = Num (2345624805922133 / 2 ^ 46)
   \<and> rows (statsOf Map.empty sec_fold) = []
   \<and> pctGood (statsOf Map.empty sec_fold) = Num 0"
proof -
  have h: "statsOf [''fold_to_3bet'' \<mapsto> rows_glh] sec_fold
       \<in> set (sectionStats [sec_fold] [''fold_to_3bet'' \<mapsto> rows_glh])"
    by (simp add: sectionStats_def)
  have r: "map result rows_glh = [GOOD, LOW, HIGH]"
    by (simp add: rows_glh_def cr_of_def)
  have z: "rows (statsOf Map.empty sec_fold) = []" "pctGood (statsOf Map.empty sec_fold) = Num 0"
    by (simp_all add: statsOf_def pct_def)
  from sectionStats_counts [OF h]
  have "bad (statsOf [''fold_to_3bet'' \<mapsto> rows_glh] sec_fold)
          = int (length (rows (statsOf [''fold_to_3bet'' \<mapsto> rows_glh] sec_fold)))
            - good (statsOf [''fold_to_3bet'' \<mapsto> rows_glh] sec_fold)"
    by blast
  with h r z show ?thesis
    by (simp add: stats_glh)
qed

section \<open>Totals\<close>

lemma foldl_add: "foldl (\<lambda>acc x. acc + f x) a xs = a + sum_list (map f xs)"
  by (induction xs arbitrary: a) (simp_all add: add.assoc)

lemma reduce_sum_sum_list: "reduce_sum f xs = sum_list (map f xs)"
  by (simp add: reduce_sum_def foldl_add)

lemma totals_fields:
  "totalRows (totals stats) = sum_list (map (\<lambda>x. int (length (rows x))) stats)"
  "totalGood (totals stats) = sum_list (map good stats)"
  "totalBad (totals stats) = totalRows (totals stats) - totalGood (totals stats)"
  "totalPctGood (totals stats) = pct (totalGood (totals stats)) (totalRows (totals stats))"
  "sectionsWithData (totals stats) = int (length (filter (\<lambda>x. rows x \<noteq> []) stats))"
  "sectionsWithBad (totals stats) = int (length (filter (\<lambda>x. 0 < bad x) stats))"
  by (simp_all add: totals_def Let_def reduce_sum_sum_list)

lemma totals_mset:
  assumes "mset ys = mset xs"
  shows "totals ys = totals xs"
proof -
  have s: "sum_list (map f ys) = sum_list (map f xs)" for f :: "SectionStats \<Rightarrow> int"
    using assms by (metis mset_map sum_mset_sum_list)
  have l: "length (filter P ys) = length (filter P xs)" for P :: "SectionStats \<Rightarrow> bool"
    using assms by (metis mset_filter size_mset)
  show ?thesis
    by (simp add: totals_def reduce_sum_sum_list s l)
qed

lemma sum_good_le:
  "sum_list (map good (sectionStats SECTIONS cmp))
     \<le> sum_list (map (\<lambda>x. int (length (rows x))) (sectionStats SECTIONS cmp))"
  by (induction SECTIONS) (simp_all add: sectionStats_def statsOf_fields(2) add_mono)

lemma sum_good_nonneg: "0 \<le> sum_list (map good (sectionStats SECTIONS cmp))"
  by (induction SECTIONS) (simp_all add: sectionStats_def statsOf_fields(2))

lemma sum_bad:
  "sum_list (map bad (sectionStats SECTIONS cmp))
     = sum_list (map (\<lambda>x. int (length (rows x))) (sectionStats SECTIONS cmp))
       - sum_list (map good (sectionStats SECTIONS cmp))"
  by (induction SECTIONS) (simp_all add: sectionStats_def statsOf_def Let_def)

lemma filter_bad_sectionStats:
  "filter (\<lambda>x. 0 < bad x) (sectionStats SECTIONS cmp)
     = filter (\<lambda>x. \<exists>r \<in> set (rows x). result r \<noteq> GOOD) (sectionStats SECTIONS cmp)"
  by (induction SECTIONS) (simp_all add: sectionStats_def bad_pos_iff)

lemma totals_ex:
  "totals (sectionStats [sec_fold, sec_vpip] cmp_ex)
     = \<lparr>totalRows = 4, totalGood = 2, totalBad = 2, totalPctGood = Num 50,
        sectionsWithData = 2, sectionsWithBad = 1, totalStats = 2, goodStats = 0,
        badStats = 2, pctGoodStats = Num 0\<rparr>"
  by (simp add: totals_def sectionStats_def statsOf_def reduce_sum_def cmp_ex_def sec_fold_def
      sec_vpip_def rows_glh_def cr_of_def pct_2_4 pct_zero_good)

lemma totals_pct_bounded:
  "\<exists>y. totalPctGood (totals (sectionStats SECTIONS cmp)) = Num y \<and> 0 \<le> y \<and> y \<le> 100"
  unfolding totals_fields by (rule pct_bounded [OF sum_good_nonneg sum_good_le])

text \<open>
  C7, as stated: the global fraction in-range is the global in-range count divided by
  the global total. With 2 rows in-range out of 4 the field \<open>pctGood\<close> of the totals is
  50, not \<open>2/4\<close>: the quotient is multiplied by 100.
\<close>

theorem totals_fraction_counterexample:
  "totalGood (totals (sectionStats [sec_fold, sec_vpip] cmp_ex)) = 2
   \<and> totalRows (totals (sectionStats [sec_fold, sec_vpip] cmp_ex)) = 4
   \<and> totalPctGood (totals (sectionStats [sec_fold, sec_vpip] cmp_ex)) = Num 50
   \<and> totalPctGood (totals (sectionStats [sec_fold, sec_vpip] cmp_ex)) \<noteq> Num (2 / 4)"
  by (simp add: totals_ex)

text \<open>
  C7, amended: for the statistics of every catalog and every table of classified rows,
  the totals are the sums of the per-section row, in-range and out-of-range counts; the
  global \<open>pctGood\<close> is the percentage in-range, the global in-range count divided by the
  global total, times 100, in double arithmetic (0 when the total is 0, always a finite
  number from 0 to 100); \<open>sectionsWithData\<close> counts the sections with at least one row
  and \<open>sectionsWithBad\<close> those with at least one out-of-range row; and the totals of any
  reordering of the statistics are the same.
\<close>

theorem totals_of_sectionStats:
  assumes "stats = sectionStats SECTIONS cmp" "mset stats' = mset stats"
  shows "totalRows (totals stats) = sum_list (map (\<lambda>x. int (length (rows x))) stats)
   \<and> totalGood (totals stats) = sum_list (map good stats)
   \<and> totalBad (totals stats) = sum_list (map bad stats)
   \<and> totalPctGood (totals stats) =
       (if totalRows (totals stats) = 0 then Num 0
        else js_mul (js_div (Num (of_int (totalGood (totals stats))))
                            (Num (of_int (totalRows (totals stats))))) (Num 100))
   \<and> (\<exists>y. totalPctGood (totals stats) = Num y \<and> 0 \<le> y \<and> y \<le> 100)
   \<and> sectionsWithData (totals stats) = int (length (filter (\<lambda>x. rows x \<noteq> []) stats))
   \<and> sectionsWithBad (totals stats)
       = int (length (filter (\<lambda>x. \<exists>r \<in> set (rows x). result r \<noteq> GOOD) stats))
   \<and> totals stats' = totals stats"
proof -
  have b: "totalBad (totals stats) = sum_list (map bad stats)"
    by (simp only: assms(1) totals_fields sum_bad)
  have p: "totalPctGood (totals stats) =
       (if totalRows (totals stats) = 0 then Num 0
        else js_mul (js_div (Num (of_int (totalGood (totals stats))))
                            (Num (of_int (totalRows (totals stats))))) (Num 100))"
    by (simp add: totals_fields(4) pct_def)
  have fin: "\<exists>y. totalPctGood (totals stats) = Num y \<and> 0 \<le> y \<and> y \<le> 100"
    unfolding assms(1) by (rule totals_pct_bounded)
  have w: "sectionsWithBad (totals stats)
       = int (length (filter (\<lambda>x. \<exists>r \<in> set (rows x). result r \<noteq> GOOD) stats))"
    by (simp only: assms(1) totals_fields filter_bad_sectionStats)
  have perm: "totals stats' = totals stats"
    using assms(2) by (rule totals_mset)
  show ?thesis
    using totals_fields(1,2,5) [of stats] b p fin w perm by blast
qed

theorem totals_of_sectionStats_witness:
  "totalRows (totals (sectionStats [sec_fold, sec_vpip] cmp_ex)) = 4
   \<and> totalGood (totals (sectionStats [sec_fold, sec_vpip] cmp_ex)) = 2
   \<and> totalBad (totals (sectionStats [sec_fold, sec_vpip] cmp_ex)) = 2
   \<and> sum_list (map bad (sectionStats [sec_fold, sec_vpip] cmp_ex)) = 2
   \<and> totalPctGood (totals (sectionStats [sec_fold, sec_vpip] cmp_ex)) = Num 50
   \<and> sectionsWithData (totals (sectionStats [sec_fold, sec_vpip] cmp_ex)) = 2
   \<and> sectionsWithBad (totals (sectionStats [sec_fold, sec_vpip] cmp_ex)) = 1
   \<and> totals (sectionStats [sec_vpip, sec_fold] cmp_ex)
       = totals (sectionStats [sec_fold, sec_vpip] cmp_ex)"
proof -
  have m: "mset (sectionStats [sec_vpip, sec_fold] cmp_ex)
             = mset (sectionStats [sec_fold, sec_vpip] cmp_ex)"
    by (simp add: sectionStats_def)
  show ?thesis
    using totals_of_sectionStats [OF refl m] by (simp add: totals_ex)
qed

text \<open>
  C9: in the totals, \<open>goodStats\<close> is 0 and \<open>pctGoodStats\<close> is 0 for every input, and
  \<open>badStats\<close> equals \<open>totalStats\<close>, the number of sections with at least one row.
\<close>

theorem totals_stats_fields:
  "goodStats (totals stats) = 0
   \<and> pctGoodStats (totals stats) = Num 0
   \<and> badStats (totals stats) = totalStats (totals stats)
   \<and> totalStats (totals stats) = int (length (filter (\<lambda>x. rows x \<noteq> []) stats))"
  by (simp add: totals_def Let_def pct_zero_good)

section \<open>The row classifier\<close>

lemma rowsLoop_acc: "rowsLoop s acc rs = acc @ List.map_filter (computeRow s) rs"
  by (induction rs arbitrary: acc) (simp_all add: List.map_filter_simps split: option.splits)

lemma sectionsLoop_other:
  "k \<notin> sid ` set ss \<Longrightarrow> sectionsLoop m rawRows ss k = m k"
  by (induction ss arbitrary: m) simp_all

lemma sectionsLoop_distinct:
  "distinct (map sid ss) \<Longrightarrow> s \<in> set ss
     \<Longrightarrow> sectionsLoop m rawRows ss (sid s) = Some (rowsLoop s [] rawRows)"
proof (induction ss arbitrary: m)
  case Nil
  then show ?case by simp
next
  case (Cons a ss)
  show ?case
  proof (cases "s = a")
    case True
    with Cons.prems have "sid s \<notin> sid ` set ss" by simp
    then show ?thesis using True by (simp add: sectionsLoop_other)
  next
    case False
    with Cons show ?thesis by simp
  qed
qed

lemma readTarget_None_iff:
  "readTarget s k = None \<longleftrightarrow> targetsByPosition s k = None \<and> k \<notin> set objectPrototypeMembers"
  by (simp add: readTarget_def split: option.splits)

lemma readTarget_own:
  "k \<notin> set objectPrototypeMembers \<Longrightarrow>
     readTarget s k = map_option OwnTarget (targetsByPosition s k)"
  by (simp add: readTarget_def split: option.splits)

lemma computeRow_None_iff:
  "computeRow s r = None \<longleftrightarrow>
     positionOf r = [] \<or> readTarget s (positionOf r) = None
     \<or> parsePercent (r (column s)) = None"
  by (simp add: computeRow_def Let_def split: option.splits)

lemma computeRow_None_own:
  assumes "positionOf r \<notin> set objectPrototypeMembers"
  shows "computeRow s r = None \<longleftrightarrow>
     positionOf r = [] \<or> targetsByPosition s (positionOf r) = None
     \<or> parsePercent (r (column s)) = None"
  using assms by (simp add: computeRow_None_iff readTarget_None_iff)

lemma not_inherited:
  "''Button'' \<notin> set objectPrototypeMembers" "''SB'' \<notin> set objectPrototypeMembers"
  by (simp_all add: objectPrototypeMembers_def)

lemma computeRow_Some:
  assumes "computeRow s r = Some cr"
  shows "\<exists>tgt v. readTarget s (positionOf r) = Some tgt
           \<and> parsePercent (r (column s)) = Some v
           \<and> cr = \<lparr>position = positionOf r, hands = r ''Hands'', val = v, target = tgt,
                    result = classify v (rangeRead tgt),
                    recAction = (case classify v (rangeRead tgt) of GOOD \<Rightarrow> goodAction s
                                 | LOW \<Rightarrow> lowAction s | HIGH \<Rightarrow> highAction s)\<rparr>"
  using assms by (auto simp: computeRow_def Let_def split: option.splits if_splits ResultType.splits)

text \<open>The example rows in the two example sections.\<close>

lemma parsePercent_45: "parsePercent (Some ''45%'') = Some (Num 45)"
  by code_simp

lemma parsePercent_30: "parsePercent (Some ''30'') = Some (Num 30)"
  by code_simp

lemma parsePercent_dash: "parsePercent (Some ''-'') = None"
  by code_simp

lemma positionOf_btn: "positionOf row_btn = ''Button''"
  by code_simp

lemma positionOf_sb: "positionOf row_sb = ''SB''"
  by code_simp

lemma positionOf_blank: "positionOf row_blank = []"
  by code_simp


lemma computeRow_fold_btn: "computeRow sec_fold row_btn = Some \<lparr>position = ''Button'', hands = None, val = Num 45,
   target = OwnTarget \<lparr>rmin = Num 50, rmax = Num 65\<rparr>, result = LOW, recAction = ''tighten''\<rparr>"
  by (simp add: computeRow_def positionOf_btn readTarget_def rangeRead_def sec_fold_def)
    (simp add: row_btn_def parsePercent_45 classify_def rangeRead_def)

lemma computeRow_skips:
 "computeRow sec_fold row_sb = None"
 "computeRow sec_fold row_blank = None"
 "computeRow sec_vpip row_btn = None"
 "computeRow sec_vpip row_blank = None"
    apply (simp_all add: computeRow_def positionOf_btn positionOf_sb positionOf_blank readTarget_def
        objectPrototypeMembers_def sec_fold_def sec_vpip_def)
  apply (simp add: row_btn_def parsePercent_dash)
  done

lemma computeRow_vpip_sb: "computeRow sec_vpip row_sb = Some \<lparr>position = ''SB'', hands = Some ''120'', val = Num 30,
   target = OwnTarget \<lparr>rmin = Num 25, rmax = Num 35\<rparr>, result = GOOD, recAction = ''keep''\<rparr>"
  by (simp add: computeRow_def positionOf_sb readTarget_def rangeRead_def sec_vpip_def)
    (simp add: row_sb_def parsePercent_30 classify_def js_ge_def rangeRead_def)

lemma map_filter_app:
  "List.map_filter f (xs @ ys) = List.map_filter f xs @ List.map_filter f ys"
  by (simp add: List.map_filter_def)

lemma computed_distinct:
  assumes "distinct (map sid SECTIONS)" "s \<in> set SECTIONS"
  shows "computed SECTIONS rawRows (sid s) = Some (List.map_filter (computeRow s) rawRows)"
  using sectionsLoop_distinct [OF assms] by (simp add: computed_def rowsLoop_acc)

lemma computed_ex:
  "computed [sec_fold, sec_vpip] [row_btn, row_sb, row_blank] ''fold_to_3bet''
     = Some [\<lparr>position = ''Button'', hands = None, val = Num 45,
              target = OwnTarget \<lparr>rmin = Num 50, rmax = Num 65\<rparr>, result = LOW, recAction = ''tighten''\<rparr>]"
  "computed [sec_fold, sec_vpip] [row_btn, row_sb, row_blank] ''vpip''
     = Some [\<lparr>position = ''SB'', hands = Some ''120'', val = Num 30,
              target = OwnTarget \<lparr>rmin = Num 25, rmax = Num 35\<rparr>, result = GOOD, recAction = ''keep''\<rparr>]"
  by (simp_all add: computed_def computeRow_fold_btn computeRow_vpip_sb computeRow_skips)
    (simp_all add: sec_fold_def sec_vpip_def)

text \<open>
  C4, as stated: a row is excluded from a section when the section's mapping has no entry
  for the untransformed position label. The label \<open>" SB "\<close> is not a key of the mapping
  of the section VPIP, and the row is classified there all the same: the key looked up is
  the trimmed label \<open>"SB"\<close>.
\<close>

theorem untrimmed_label_counterexample:
  "row_sb ''Position'' = Some '' SB ''
   \<and> targetsByPosition sec_vpip '' SB '' = None
   \<and> positionOf row_sb = ''SB''
   \<and> parsePercent (row_sb (column sec_vpip)) = Some (Num 30)
   \<and> computed [sec_fold, sec_vpip] [row_sb] ''vpip''
       = Some [\<lparr>position = ''SB'', hands = Some ''120'', val = Num 30,
                target = OwnTarget \<lparr>rmin = Num 25, rmax = Num 35\<rparr>, result = GOOD, recAction = ''keep''\<rparr>]"
proof -
  have "computed [sec_fold, sec_vpip] [row_sb] ''vpip''
     = Some [\<lparr>position = ''SB'', hands = Some ''120'', val = Num 30,
              target = OwnTarget \<lparr>rmin = Num 25, rmax = Num 35\<rparr>, result = GOOD, recAction = ''keep''\<rparr>]"
    by (simp add: computed_def computeRow_vpip_sb computeRow_skips) (simp add: sec_fold_def sec_vpip_def)
  moreover have "row_sb ''Position'' = Some '' SB ''" "targetsByPosition sec_vpip '' SB '' = None"
    "parsePercent (row_sb (column sec_vpip)) = Some (Num 30)"
    by (simp_all add: row_sb_def sec_vpip_def parsePercent_30)
  ultimately show ?thesis
    using positionOf_sb by simp
qed

text \<open>
  C4, amended: in a catalog with distinct keys, the classified sequence of a section is
  the sequence of the raw rows, in input order, without the excluded ones. A row whose
  trimmed position label is not the name of a member that objects inherit (such as
  \<open>"constructor"\<close> or \<open>"toString"\<close>) is excluded from the section exactly when the label
  is empty after trimming, or the section's mapping has no entry for the trimmed label
  (looked up as it is, with no other change), or the extracted value of the section's
  column is absent. Whether a row is excluded depends on that row and that section alone:
  the rows before and after it contribute what they contribute without it.
\<close>

theorem computed_rows:
  assumes "distinct (map sid SECTIONS)" "s \<in> set SECTIONS"
  shows "computed SECTIONS rawRows (sid s) = Some (List.map_filter (computeRow s) rawRows)
   \<and> (positionOf r \<notin> set objectPrototypeMembers \<longrightarrow>
        (computeRow s r = None \<longleftrightarrow>
           positionOf r = [] \<or> targetsByPosition s (positionOf r) = None
           \<or> parsePercent (r (column s)) = None))
   \<and> computed SECTIONS (xs @ r # ys) (sid s)
       = Some (List.map_filter (computeRow s) xs
               @ (case computeRow s r of None \<Rightarrow> [] | Some c \<Rightarrow> [c])
               @ List.map_filter (computeRow s) ys)"
proof -
  have "List.map_filter (computeRow s) (xs @ r # ys)
          = List.map_filter (computeRow s) xs
            @ (case computeRow s r of None \<Rightarrow> [] | Some c \<Rightarrow> [c])
            @ List.map_filter (computeRow s) ys"
    by (simp add: List.map_filter_simps map_filter_app split: option.splits)
  then show ?thesis
    using computed_distinct [OF assms] computeRow_None_own [of r s] by simp
qed

text \<open>
  The three example rows in the two example sections: the button row is classified in
  the first section and skipped in the second (its cell there is \<open>"-"\<close>), the small
  blind row is skipped in the first (no target) and classified in the second, the row
  without a position is skipped in both.
\<close>

theorem computed_rows_witness:
  "distinct (map sid [sec_fold, sec_vpip])
   \<and> sec_fold \<in> set [sec_fold, sec_vpip]
   \<and> positionOf row_sb \<notin> set objectPrototypeMembers
   \<and> computed [sec_fold, sec_vpip] [row_btn, row_sb, row_blank] (sid sec_fold)
       = Some [\<lparr>position = ''Button'', hands = None, val = Num 45,
                target = OwnTarget \<lparr>rmin = Num 50, rmax = Num 65\<rparr>, result = LOW,
                recAction = ''tighten''\<rparr>]
   \<and> computed [sec_fold, sec_vpip] [row_btn, row_sb, row_blank] (sid sec_vpip)
       = Some [\<lparr>position = ''SB'', hands = Some ''120'', val = Num 30,
                target = OwnTarget \<lparr>rmin = Num 25, rmax = Num 35\<rparr>, result = GOOD,
                recAction = ''keep''\<rparr>]
   \<and> computeRow sec_fold row_sb = None
   \<and> targetsByPosition sec_fold (positionOf row_sb) = None"
proof -
  have d: "distinct (map sid [sec_fold, sec_vpip])"
    by (simp add: sec_fold_def sec_vpip_def)
  have m: "sec_fold \<in> set [sec_fold, sec_vpip]"
    by simp
  have ids: "sid sec_fold = ''fold_to_3bet''" "sid sec_vpip = ''vpip''"
    by (simp_all add: sec_fold_def sec_vpip_def)
  have n: "positionOf row_sb \<notin> set objectPrototypeMembers"
    by (simp add: positionOf_sb not_inherited)
  have t: "targetsByPosition sec_fold (positionOf row_sb) = None"
    by (simp add: positionOf_sb sec_fold_def)
  from computed_rows [OF d m, where r = row_sb] n t
  have "computeRow sec_fold row_sb = None"
    by blast
  with d m n t show ?thesis
    by (simp add: ids computed_ex)
qed

section \<open>Section order\<close>

lemma set_insert_by: "set (insert_by c x ys) = insert x (set ys)"
  by (induction ys) auto

lemma mset_insert_by: "mset (insert_by c x ys) = add_mset x (mset ys)"
  by (induction ys) simp_all

lemma mset_js_sort: "mset (js_sort c xs) = mset xs"
  by (induction xs) (simp_all add: js_sort_def mset_insert_by)

lemma sorted_insert_by:
  assumes total: "\<And>a b. c a b \<le> 0 \<or> c b a \<le> 0"
    and trans: "\<And>a b d. c a b \<le> 0 \<Longrightarrow> c b d \<le> 0 \<Longrightarrow> c a d \<le> 0"
    and "sorted_wrt (\<lambda>a b. c a b \<le> 0) ys"
  shows "sorted_wrt (\<lambda>a b. c a b \<le> 0) (insert_by c x ys)"
  using assms(3)
proof (induction ys)
  case Nil
  then show ?case by simp
next
  case (Cons y ys)
  show ?case
  proof (cases "c x y \<le> 0")
    case True
    then have "\<forall>z \<in> set ys. c x z \<le> 0"
      using Cons.prems trans by auto
    with True Cons.prems show ?thesis by simp
  next
    case False
    then have "c y x \<le> 0" using total [of x y] by simp
    with False Cons show ?thesis by (simp add: set_insert_by)
  qed
qed

lemma sorted_js_sort:
  assumes "\<And>a b. c a b \<le> 0 \<or> c b a \<le> 0"
    and "\<And>a b d. c a b \<le> 0 \<Longrightarrow> c b d \<le> 0 \<Longrightarrow> c a d \<le> 0"
  shows "sorted_wrt (\<lambda>a b. c a b \<le> 0) (js_sort c xs)"
proof (induction xs)
  case Nil
  then show ?case by (simp add: js_sort_def)
next
  case (Cons x xs)
  have "js_sort c (x # xs) = insert_by c x (js_sort c xs)"
    by (simp add: js_sort_def)
  with Cons show ?case
    using sorted_insert_by [of c "js_sort c xs" x] assms by simp
qed

lemma js_sort_sorted_id:
  "sorted_wrt (\<lambda>a b. c a b \<le> 0) xs \<Longrightarrow> js_sort c xs = xs"
proof (induction xs)
  case Nil
  then show ?case by (simp add: js_sort_def)
next
  case (Cons x xs)
  then have "js_sort c (x # xs) = insert_by c x xs"
    by (simp add: js_sort_def)
  also have "\<dots> = x # xs"
    using Cons.prems by (cases xs) simp_all
  finally show ?case .
qed

lemma cmpMostBad_le: "cmpMostBad lc a b \<le> 0 \<longleftrightarrow> spec_mostBadOrder lc a b"
  by (auto simp: cmpMostBad_def spec_mostBadOrder_def)

lemma mostBad_total:
  assumes "collation lc"
  shows "cmpMostBad lc a b \<le> 0 \<or> cmpMostBad lc b a \<le> 0"
  using assms unfolding cmpMostBad_le spec_mostBadOrder_def collation_def
  by (metis linorder_less_linear)

lemma mostBad_trans:
  assumes "collation lc" "cmpMostBad lc a b \<le> 0" "cmpMostBad lc b d \<le> 0"
  shows "cmpMostBad lc a d \<le> 0"
proof -
  have t: "lc x z \<le> 0" if "lc x y \<le> 0" "lc y z \<le> 0" for x y z
    using assms(1) that unfolding collation_def by blast
  from assms(2) consider "bad b < bad a"
    | "bad a = bad b" "length (rows b) < length (rows a)"
    | "bad a = bad b" "length (rows a) = length (rows b)"
      "lc (title (stSection a)) (title (stSection b)) \<le> 0"
    unfolding cmpMostBad_le spec_mostBadOrder_def by blast
  then show ?thesis
  proof cases
    case 1
    with assms(3) show ?thesis
      unfolding cmpMostBad_le spec_mostBadOrder_def by auto
  next
    case 2
    with assms(3) show ?thesis
      unfolding cmpMostBad_le spec_mostBadOrder_def by auto
  next
    case 3
    with assms(3) t show ?thesis
      unfolding cmpMostBad_le spec_mostBadOrder_def by auto
  qed
qed


lemma codeUnitCompare_cases:
  "codeUnitCompare a b = - 1 \<or> codeUnitCompare a b = 0 \<or> codeUnitCompare a b = 1"
  by (induction a b rule: codeUnitCompare.induct) simp_all

lemma codeUnitCompare_total: "codeUnitCompare a b \<le> 0 \<or> codeUnitCompare b a \<le> 0"
  by (induction a b rule: codeUnitCompare.induct) auto

lemma codeUnitCompare_trans:
  "codeUnitCompare a b \<le> 0 \<Longrightarrow> codeUnitCompare b c \<le> 0 \<Longrightarrow> codeUnitCompare a c \<le> 0"
proof (induction a b arbitrary: c rule: codeUnitCompare.induct)
  case 1
  then show ?case by simp
next
  case (2 y ys)
  then show ?case by (cases c) simp_all
next
  case (3 x xs)
  then show ?case by simp
next
  case (4 x xs y ys)
  show ?case
  proof (cases c)
    case Nil
    with "4.prems" show ?thesis by simp
  next
    case (Cons z zs)
    with "4.prems" "4.IH" [of zs] show ?thesis
      by (auto split: if_splits)
  qed
qed

lemma collation_codeUnitCompare: "collation codeUnitCompare"
  unfolding collation_def using codeUnitCompare_total codeUnitCompare_trans by blast

text \<open>
  C6: in the mode "most out-of-range first" the visible sections are the included ones,
  ordered by out-of-range count descending, then row count descending, then title
  ascending in the collation of \<open>localeCompare\<close>; so two sections with equal counts stand
  in the order of their titles, and sorting the result again gives the same list.
\<close>

theorem visibleSections_most_bad:
  assumes "collation lc"
  shows "sorted_wrt (spec_mostBadOrder lc) (visibleSections lc scope query MOST_BAD stats)
   \<and> mset (visibleSections lc scope query MOST_BAD stats)
       = mset (filter (sectionIncluded scope (toLowerCase (trim query))) stats)
   \<and> js_sort (cmpMostBad lc) (visibleSections lc scope query MOST_BAD stats)
       = visibleSections lc scope query MOST_BAD stats"
proof -
  define lst where "lst = filter (sectionIncluded scope (toLowerCase (trim query))) stats"
  have v: "visibleSections lc scope query MOST_BAD stats = js_sort (cmpMostBad lc) lst"
    by (simp add: visibleSections_def lst_def)
  have s: "sorted_wrt (\<lambda>a b. cmpMostBad lc a b \<le> 0) (js_sort (cmpMostBad lc) lst)"
    by (rule sorted_js_sort) (use assms mostBad_total mostBad_trans in blast)+
  have s': "sorted_wrt (spec_mostBadOrder lc) (js_sort (cmpMostBad lc) lst)"
    using s by (simp only: cmpMostBad_le)
  have i: "js_sort (cmpMostBad lc) (js_sort (cmpMostBad lc) lst) = js_sort (cmpMostBad lc) lst"
    using s by (rule js_sort_sorted_id)
  show ?thesis
    unfolding v using s' i by (simp add: mset_js_sort lst_def)
qed

lemma st_of_fields:
  "bad (st_of t rws) = int (length (filter (\<lambda>r. result r \<noteq> GOOD) rws))"
  "rows (st_of t rws) = rws"
  "title (stSection (st_of t rws)) = t"
  by (simp_all add: st_of_def statsOf_def Let_def length_filter_compl)


lemma cmp_titles:
  "codeUnitCompare ''Alpha'' ''Beta'' = - 1"
  "codeUnitCompare ''Beta'' ''Alpha'' = 1"
  by simp_all

lemma visible_stats3:
  "visibleSections codeUnitCompare SC_ALL [] MOST_BAD stats3
     = [st_of ''Alpha'' [cr_of (Num 70) HIGH, cr_of (Num 60) GOOD],
        st_of ''Beta'' [cr_of (Num 60) GOOD, cr_of (Num 45) LOW],
        st_of ''Zeta'' [cr_of (Num 60) GOOD]]"
  by (simp add: visibleSections_def trim_def toLowerCase_def sectionIncluded_def stats3_def
      js_sort_def cmpMostBad_def st_of_fields cr_of_def cmp_titles)

text \<open>
  Three sections given in the order Zeta, Beta, Alpha; Beta and Alpha have one
  out-of-range row out of two, Zeta none out of one.
\<close>

theorem visibleSections_most_bad_witness:
  "collation codeUnitCompare
   \<and> map (\<lambda>x. title (stSection x)) stats3 = [''Zeta'', ''Beta'', ''Alpha'']
   \<and> map (\<lambda>x. title (stSection x)) (visibleSections codeUnitCompare SC_ALL [] MOST_BAD stats3)
       = [''Alpha'', ''Beta'', ''Zeta'']
   \<and> map bad (visibleSections codeUnitCompare SC_ALL [] MOST_BAD stats3) = [1, 1, 0]
   \<and> map (\<lambda>x. length (rows x)) (visibleSections codeUnitCompare SC_ALL [] MOST_BAD stats3) = [2, 2, 1]
   \<and> sorted_wrt (spec_mostBadOrder codeUnitCompare)
        (visibleSections codeUnitCompare SC_ALL [] MOST_BAD stats3)"
proof -
  have ev: "map (\<lambda>x. title (stSection x)) stats3 = [''Zeta'', ''Beta'', ''Alpha'']"
    "map (\<lambda>x. title (stSection x)) (visibleSections codeUnitCompare SC_ALL [] MOST_BAD stats3)
       = [''Alpha'', ''Beta'', ''Zeta'']"
    "map bad (visibleSections codeUnitCompare SC_ALL [] MOST_BAD stats3) = [1, 1, 0]"
    "map (\<lambda>x. length (rows x)) (visibleSections codeUnitCompare SC_ALL [] MOST_BAD stats3) = [2, 2, 1]"
    unfolding visible_stats3 by (simp_all add: st_of_fields stats3_def cr_of_def)
  from visibleSections_most_bad [OF collation_codeUnitCompare, of SC_ALL "[]" stats3]
  have "sorted_wrt (spec_mostBadOrder codeUnitCompare)
        (visibleSections codeUnitCompare SC_ALL [] MOST_BAD stats3)"
    by blast
  with ev collation_codeUnitCompare show ?thesis
    by blast
qed

section \<open>A target found by inheritance\<close>

text \<open>
  A position label that is the name of an inherited member: the mapping of the section
  has no entry for it, the property read finds the member, and the row is kept,
  classified in-range.
\<close>

lemma positionOf_ctor: "positionOf row_ctor = ''constructor''"
  by code_simp

lemma computeRow_ctor:
  "computeRow sec_vpip row_ctor
     = Some \<lparr>position = ''constructor'', hands = None, val = Num 30,
             target = InheritedMember ''constructor'', result = GOOD, recAction = ''keep''\<rparr>"
  by (simp add: computeRow_def positionOf_ctor readTarget_def rangeRead_def sec_vpip_def
      objectPrototypeMembers_def)
    (simp add: row_ctor_def parsePercent_30 classify_def js_ge_def rangeRead_def Let_def)

text \<open>
  C8 says that every anomalous condition, a missing target mapping among them, takes a
  silent skip or a zero default. The code tests the target it has read
  (\<^verbatim>\<open>if (!target) continue\<close>) and so skips a label the mapping does not have, except
  where the label names an inherited member: for the row with position
  \<open>"constructor"\<close> and cell \<open>"30"\<close> the section VPIP has no target, and the row is not
  skipped but pushed, classified in-range with the in-range action, and counted.
\<close>

theorem inherited_target_not_skipped:
  "positionOf row_ctor = ''constructor''
   \<and> targetsByPosition sec_vpip (positionOf row_ctor) = None
   \<and> computed [sec_vpip] [row_ctor] (sid sec_vpip)
       = Some [\<lparr>position = ''constructor'', hands = None, val = Num 30,
                target = InheritedMember ''constructor'', result = GOOD, recAction = ''keep''\<rparr>]
   \<and> good (statsOf (computed [sec_vpip] [row_ctor]) sec_vpip) = 1
   \<and> bad (statsOf (computed [sec_vpip] [row_ctor]) sec_vpip) = 0"
proof -
  have i: "sid sec_vpip = ''vpip''"
    by (simp add: sec_vpip_def)
  have c: "computed [sec_vpip] [row_ctor] ''vpip''
       = Some [\<lparr>position = ''constructor'', hands = None, val = Num 30,
                target = InheritedMember ''constructor'', result = GOOD, recAction = ''keep''\<rparr>]"
    by (simp add: computed_def computeRow_ctor i)
  have t: "targetsByPosition sec_vpip ''constructor'' = None"
    by (simp add: sec_vpip_def)
  show ?thesis
    unfolding positionOf_ctor i by (simp add: t c statsOf_def i)
qed

end
